theory Spec2Isabelle
  imports
    Main
    "HOL-Library.Word"
    "HOL-Library.Signed_Division"
    "HOL-Library.Monad_Syntax"
begin

unbundle bit_operations_syntax

section \<open>Machine types of the Go program\<close>

text \<open>
  Go's \<open>byte\<close>, \<open>uint32\<close>, \<open>uint64\<close>, \<open>int32\<close> and \<open>int64\<close> are fixed-width words.
  Arithmetic wraps silently; a signed type is the same word read through \<open>sint\<close> and
  compared with \<open><s\<close> and \<open>\<le>s\<close>, an unsigned one is read through \<open>unat\<close> and compared
  with \<open><\<close> and \<open>\<le>\<close>.
\<close>

type_synonym byte = "8 word"
type_synonym uint32 = "32 word"
type_synonym uint64 = "64 word"
type_synonym int32 = "32 word"
type_synonym int64 = "64 word"

text \<open>Go's \<open>/\<close> on \<open>int64\<close> truncates towards zero.\<close>

definition quo64 :: "int64 \<Rightarrow> int64 \<Rightarrow> int64" where
  "quo64 a b = word_of_int (sint a sdiv sint b)"

section \<open>The part of package \<open>time\<close> that the program uses\<close>

text \<open>
  \<open>time.Time\<close> as the standard library of the program's day declares it: the seconds
  since January 1 of year 1, 00:00:00 UTC, the nanoseconds within that second, and a
  location pointer (\<open>None\<close> is Go's \<open>nil\<close>).  Later releases pack the same three values
  into the fields \<open>wall\<close>, \<open>ext\<close> and \<open>loc\<close>; for a value built by \<open>time.Unix\<close> the
  two layouts carry the same data.
\<close>

datatype Location = Local | UTC

record Time =
  tsec :: int64
  tnsec :: int32
  tloc :: "Location option"

text \<open>The zero value \<open>time.Time{}\<close>.\<close>

definition Time_zero :: Time where
  "Time_zero = \<lparr>tsec = 0, tnsec = 0, tloc = None\<rparr>"

definition secondsPerDay :: int where
  "secondsPerDay = 24 * 60 * 60"

definition unixToInternal :: int64 where
  "unixToInternal =
     word_of_int ((1969 * 365 + 1969 div 4 - 1969 div 100 + 1969 div 400) * secondsPerDay)"

definition internalToUnix :: int64 where
  "internalToUnix = - unixToInternal"

text \<open>
  \<open>time.Unix(sec, nsec)\<close>: a nanosecond count outside \<open>[0, 1e9)\<close> is carried into the
  seconds, then the seconds are rebased from 1970 to year 1.
\<close>

definition Unix :: "int64 \<Rightarrow> int64 \<Rightarrow> Time" where
  "Unix sec0 nsec0 =
     (let (sec2, nsec2) =
        (if nsec0 <s 0 \<or> 1000000000 \<le>s nsec0 then
           (let n = quo64 nsec0 1000000000;
                sec1 = sec0 + n;
                nsec1 = nsec0 - n * 1000000000
            in if nsec1 <s 0 then (sec1 - 1, nsec1 + 1000000000) else (sec1, nsec1))
         else (sec0, nsec0))
      in \<lparr>tsec = sec2 + unixToInternal, tnsec = ucast nsec2, tloc = Some Local\<rparr>)"

text \<open>The methods \<open>IsZero\<close>, \<open>Unix\<close> and \<open>Nanosecond\<close> of \<open>time.Time\<close>.\<close>

definition IsZero :: "Time \<Rightarrow> bool" where
  "IsZero t \<longleftrightarrow> tsec t = 0 \<and> tnsec t = 0"

definition Time_Unix :: "Time \<Rightarrow> int64" where
  "Time_Unix t = tsec t + internalToUnix"

definition Nanosecond :: "Time \<Rightarrow> int" where
  "Nanosecond t = sint (tnsec t)"

section \<open>The leap-second table and \<open>EpochTime\<close>\<close>

definition leapSeconds :: "int64 list" where
  "leapSeconds =
    [1341100834,
     1230768033,
     1136073632,
     915148831,
     867715230,
     820454429,
     773020828,
     741484827,
     709948826,
     662688025,
     631152024,
     567993623,
     489024022,
     425865621,
     394329620,
     362793619,
     315532818,
     283996817,
     252460816,
     220924815,
     189302414,
     157766413,
     126230412,
     94694411,
     78796810,
     63072009]"

text \<open>
  The body of \<open>for _, l := range leapSeconds { offset--; if secs > l { break } }\<close>,
  threading \<open>offset\<close> through the entries still to be visited.  \<open>offset\<close> is a Go
  \<open>int\<close>; it is kept as a mathematical integer here, and \<open>EpochTime_loop_decrements\<close>
  below shows that it stays between 10 and 36, so the width of \<open>int\<close> plays no part.
\<close>

fun EpochTime_loop :: "int64 list \<Rightarrow> int64 \<Rightarrow> int \<Rightarrow> int" where
  "EpochTime_loop [] secs offset = offset"
| "EpochTime_loop (l # ls) secs offset =
     (let offset' = offset - 1
      in if l <s secs then offset' else EpochTime_loop ls secs offset')"

definition EpochTime_offset :: "int64 \<Rightarrow> int" where
  "EpochTime_offset secs = EpochTime_loop leapSeconds secs (int (length leapSeconds) + 10)"

definition EpochTime :: "int64 \<Rightarrow> int64 \<Rightarrow> Time" where
  "EpochTime secs nsecs = Unix (secs - word_of_int (EpochTime_offset secs)) nsecs"

section \<open>The parts of \<open>strconv\<close> and \<open>encoding/binary\<close> that the program uses\<close>

text \<open>
  A Go string is a sequence of bytes, here a \<open>string\<close>; \<open>[]byte(s)\<close> reads each
  character as its byte.  An index or a slice expression out of range panics: the model
  returns \<open>None\<close> there, and a function of the program that could panic returns an
  \<open>option\<close>, with \<open>None\<close> for the panic.
\<close>

definition byte_of :: "char \<Rightarrow> byte" where
  "byte_of c = of_char c"

definition go_index :: "'a list \<Rightarrow> nat \<Rightarrow> 'a option" where
  "go_index xs i = (if i < length xs then Some (xs ! i) else None)"

definition go_slice :: "'a list \<Rightarrow> nat \<Rightarrow> nat \<Rightarrow> 'a list option" where
  "go_slice xs lo hi = (if lo \<le> hi \<and> hi \<le> length xs then Some (take (hi - lo) (drop lo xs)) else None)"

text \<open>The two errors \<open>strconv.ParseUint\<close> reports for a valid base and bit size.\<close>

datatype NumError = ErrSyntax | ErrRange

text \<open>\<open>func lower(c byte) byte { return c | ('x' - 'X') }\<close>\<close>

definition lower :: "byte \<Rightarrow> byte" where
  "lower c = c OR (byte_of CHR ''x'' - byte_of CHR ''X'')"

text \<open>
  The digit switch in the loop of \<open>ParseUint\<close>; \<open>None\<close> is its \<open>default\<close> branch,
  a syntax error.
\<close>

definition digit_of :: "byte \<Rightarrow> byte option" where
  "digit_of c =
     (if byte_of CHR ''0'' \<le> c \<and> c \<le> byte_of CHR ''9'' then Some (c - byte_of CHR ''0'')
      else if byte_of CHR ''a'' \<le> lower c \<and> lower c \<le> byte_of CHR ''z''
        then Some (lower c - byte_of CHR ''a'' + 10)
      else None)"

text \<open>
  \<open>strconv.ParseUint(s, 16, bitSize)\<close> for \<open>bitSize\<close> between 1 and 64, the only way
  the program calls it: base 16 is given, so no prefix and no underscore is accepted,
  \<open>cutoff\<close> is \<open>maxUint64/16 + 1\<close> and \<open>maxVal\<close> is \<open>1<<bitSize - 1\<close>.  On a range error
  Go also returns \<open>maxVal\<close>, which the program ignores.
\<close>

fun ParseUint16_loop :: "uint64 \<Rightarrow> uint64 \<Rightarrow> byte list \<Rightarrow> NumError + uint64" where
  "ParseUint16_loop maxVal n [] = Inr n"
| "ParseUint16_loop maxVal n (c # cs) =
     (case digit_of c of
        None \<Rightarrow> Inl ErrSyntax
      | Some d \<Rightarrow>
          if 16 \<le> d then Inl ErrSyntax
          else if (- 1) div 16 + 1 \<le> n then Inl ErrRange
          else
            (let n' = n * 16;
                 n1 = n' + ucast d
             in if n1 < n' \<or> maxVal < n1 then Inl ErrRange
                else ParseUint16_loop maxVal n1 cs))"

definition ParseUint16 :: "string \<Rightarrow> nat \<Rightarrow> NumError + uint64" where
  "ParseUint16 s bitSize =
     (if s = [] then Inl ErrSyntax
      else ParseUint16_loop (push_bit bitSize 1 - 1) 0 (map byte_of s))"

text \<open>
  \<open>binary.BigEndian.Uint64\<close> and \<open>Uint32\<close>; each starts with a bounds check of the last
  byte it reads.
\<close>

definition BigEndian_Uint64 :: "byte list \<Rightarrow> uint64 option" where
  "BigEndian_Uint64 b =
     (if length b < 8 then None
      else Some (ucast (b ! 7) OR push_bit 8 (ucast (b ! 6)) OR push_bit 16 (ucast (b ! 5))
        OR push_bit 24 (ucast (b ! 4)) OR push_bit 32 (ucast (b ! 3))
        OR push_bit 40 (ucast (b ! 2)) OR push_bit 48 (ucast (b ! 1))
        OR push_bit 56 (ucast (b ! 0))))"

definition BigEndian_Uint32 :: "byte list \<Rightarrow> uint32 option" where
  "BigEndian_Uint32 b =
     (if length b < 4 then None
      else Some (ucast (b ! 3) OR push_bit 8 (ucast (b ! 2)) OR push_bit 16 (ucast (b ! 1))
        OR push_bit 24 (ucast (b ! 0))))"

section \<open>The four decoders\<close>

text \<open>\<open>type Error struct { message string }\<close> and the package's one error value.\<close>

datatype Error = Error string

definition parseError :: Error where
  "parseError = Error ''Parse Error''"

text \<open>
  A decoder returns the pair \<open>(time.Time, error)\<close>; the second component is \<open>None\<close> for
  Go's \<open>nil\<close>.  The outer \<open>option\<close> is \<open>None\<close> when the call panics.
\<close>

type_synonym result = "(Time \<times> Error option) option"

definition ParseTai64 :: "string \<Rightarrow> result" where
  "ParseTai64 s =
     (if length s \<noteq> 17 then Some (Time_zero, Some parseError)
      else do {
        c \<leftarrow> go_index s 0;
        if c \<noteq> CHR ''@'' then Some (Time_zero, Some parseError)
        else do {
          digits \<leftarrow> go_slice s 1 (length s);
          case ParseUint16 digits 64 of
            Inl err \<Rightarrow> Some (Time_zero, Some parseError)
          | Inr sec \<Rightarrow>
              if 2 ^ 63 < sec then Some (Time_zero, Some parseError)
              else Some (EpochTime (sec - 2 ^ 62) 0, None)
        }
      })"

definition ParseTai64n :: "string \<Rightarrow> result" where
  "ParseTai64n s =
     (if length s \<noteq> 25 then Some (Time_zero, Some parseError)
      else do {
        c \<leftarrow> go_index s 0;
        if c \<noteq> CHR ''@'' then Some (Time_zero, Some parseError)
        else do {
          secDigits \<leftarrow> go_slice s 1 17;
          case ParseUint16 secDigits 64 of
            Inl err \<Rightarrow> Some (Time_zero, Some parseError)
          | Inr sec \<Rightarrow> do {
              nsecDigits \<leftarrow> go_slice s 17 25;
              case ParseUint16 nsecDigits 32 of
                Inl err \<Rightarrow> Some (Time_zero, Some parseError)
              | Inr nsec \<Rightarrow>
                  if 2 ^ 63 < sec then Some (Time_zero, Some parseError)
                  else Some (EpochTime (sec - 2 ^ 62) nsec, None)
            }
        }
      })"

definition DecodeTai64 :: "byte list \<Rightarrow> result" where
  "DecodeTai64 b =
     (if length b \<noteq> 8 then Some (Time_zero, Some parseError)
      else do {
        sec \<leftarrow> BigEndian_Uint64 b;
        if 2 ^ 63 < sec then Some (Time_zero, Some parseError)
        else Some (EpochTime (sec - 2 ^ 62) 0, None)
      })"

definition DecodeTai64n :: "byte list \<Rightarrow> result" where
  "DecodeTai64n b =
     (if length b \<noteq> 12 then Some (Time_zero, Some parseError)
      else do {
        b1 \<leftarrow> go_slice b 0 8;
        sec \<leftarrow> BigEndian_Uint64 b1;
        b2 \<leftarrow> go_slice b 8 12;
        nsec \<leftarrow> BigEndian_Uint32 b2;
        if 2 ^ 63 < sec then Some (Time_zero, Some parseError)
        else Some (EpochTime (sec - 2 ^ 62) (ucast nsec), None)
      })"

section \<open>The package variables as state\<close>

text \<open>
  \<open>leapSeconds\<close> and \<open>parseError\<close> are package-level \<open>var\<close>s: Go would let a function of
  the package assign to them or to an element of the slice.  Here they are the fields of
  a state that each exported function receives and returns together with its results, so
  that a write, if the source had one, would show in the returned state.  The functions
  below are the five exported functions again, statement by statement, reading the
  variables from the state; \<open>package_init\<close> is the state after the package's
  initialisation.
\<close>

record package_state =
  var_leapSeconds :: "int64 list"
  var_parseError :: Error

definition package_init :: package_state where
  "package_init = \<lparr>var_leapSeconds = leapSeconds, var_parseError = parseError\<rparr>"

definition EpochTime_st :: "package_state \<Rightarrow> int64 \<Rightarrow> int64 \<Rightarrow> Time \<times> package_state" where
  "EpochTime_st g secs nsecs =
     (let offset0 = int (length (var_leapSeconds g)) + 10;
          offset = EpochTime_loop (var_leapSeconds g) secs offset0
      in (Unix (secs - word_of_int offset) nsecs, g))"

definition ParseTai64_st :: "package_state \<Rightarrow> string \<Rightarrow> result \<times> package_state" where
  "ParseTai64_st g s =
     (if length s \<noteq> 17 then (Some (Time_zero, Some (var_parseError g)), g)
      else
        (case go_index s 0 of
           None \<Rightarrow> (None, g)
         | Some c \<Rightarrow>
             if c \<noteq> CHR ''@'' then (Some (Time_zero, Some (var_parseError g)), g)
             else
               (case go_slice s 1 (length s) of
                  None \<Rightarrow> (None, g)
                | Some digits \<Rightarrow>
                    (case ParseUint16 digits 64 of
                       Inl err \<Rightarrow> (Some (Time_zero, Some (var_parseError g)), g)
                     | Inr sec \<Rightarrow>
                         if 2 ^ 63 < sec then (Some (Time_zero, Some (var_parseError g)), g)
                         else
                           (let (t, g') = EpochTime_st g (sec - 2 ^ 62) 0
                            in (Some (t, None), g'))))))"

definition ParseTai64n_st :: "package_state \<Rightarrow> string \<Rightarrow> result \<times> package_state" where
  "ParseTai64n_st g s =
     (if length s \<noteq> 25 then (Some (Time_zero, Some (var_parseError g)), g)
      else
        (case go_index s 0 of
           None \<Rightarrow> (None, g)
         | Some c \<Rightarrow>
             if c \<noteq> CHR ''@'' then (Some (Time_zero, Some (var_parseError g)), g)
             else
               (case go_slice s 1 17 of
                  None \<Rightarrow> (None, g)
                | Some secDigits \<Rightarrow>
                    (case ParseUint16 secDigits 64 of
                       Inl err \<Rightarrow> (Some (Time_zero, Some (var_parseError g)), g)
                     | Inr sec \<Rightarrow>
                         (case go_slice s 17 25 of
                            None \<Rightarrow> (None, g)
                          | Some nsecDigits \<Rightarrow>
                              (case ParseUint16 nsecDigits 32 of
                                 Inl err \<Rightarrow> (Some (Time_zero, Some (var_parseError g)), g)
                               | Inr nsec \<Rightarrow>
                                   if 2 ^ 63 < sec
                                   then (Some (Time_zero, Some (var_parseError g)), g)
                                   else
                                     (let (t, g') = EpochTime_st g (sec - 2 ^ 62) nsec
                                      in (Some (t, None), g'))))))))"

definition DecodeTai64_st :: "package_state \<Rightarrow> byte list \<Rightarrow> result \<times> package_state" where
  "DecodeTai64_st g b =
     (if length b \<noteq> 8 then (Some (Time_zero, Some (var_parseError g)), g)
      else
        (case BigEndian_Uint64 b of
           None \<Rightarrow> (None, g)
         | Some sec \<Rightarrow>
             if 2 ^ 63 < sec then (Some (Time_zero, Some (var_parseError g)), g)
             else
               (let (t, g') = EpochTime_st g (sec - 2 ^ 62) 0
                in (Some (t, None), g'))))"

definition DecodeTai64n_st :: "package_state \<Rightarrow> byte list \<Rightarrow> result \<times> package_state" where
  "DecodeTai64n_st g b =
     (if length b \<noteq> 12 then (Some (Time_zero, Some (var_parseError g)), g)
      else
        (case go_slice b 0 8 of
           None \<Rightarrow> (None, g)
         | Some b1 \<Rightarrow>
             (case BigEndian_Uint64 b1 of
                None \<Rightarrow> (None, g)
              | Some sec \<Rightarrow>
                  (case go_slice b 8 12 of
                     None \<Rightarrow> (None, g)
                   | Some b2 \<Rightarrow>
                       (case BigEndian_Uint32 b2 of
                          None \<Rightarrow> (None, g)
                        | Some nsec \<Rightarrow>
                            if 2 ^ 63 < sec
                            then (Some (Time_zero, Some (var_parseError g)), g)
                            else
                              (let (t, g') = EpochTime_st g (sec - 2 ^ 62) (ucast nsec)
                               in (Some (t, None), g')))))))"

text \<open>
  A call of one of the five functions with its arguments, and the state a sequence of such
  calls leaves behind.
\<close>

datatype call =
    Call_EpochTime int64 int64
  | Call_ParseTai64 string
  | Call_ParseTai64n string
  | Call_DecodeTai64 "byte list"
  | Call_DecodeTai64n "byte list"

fun state_after :: "package_state \<Rightarrow> call \<Rightarrow> package_state" where
  "state_after g (Call_EpochTime secs nsecs) = snd (EpochTime_st g secs nsecs)"
| "state_after g (Call_ParseTai64 s) = snd (ParseTai64_st g s)"
| "state_after g (Call_ParseTai64n s) = snd (ParseTai64n_st g s)"
| "state_after g (Call_DecodeTai64 b) = snd (DecodeTai64_st g b)"
| "state_after g (Call_DecodeTai64n b) = snd (DecodeTai64n_st g b)"

fun run :: "package_state \<Rightarrow> call list \<Rightarrow> package_state" where
  "run g [] = g"
| "run g (c # cs) = run (state_after g c) cs"

section \<open>The specification's vocabulary\<close>

text \<open>
  The definitions of this section follow the words of the specification, not the code;
  the theorems compare them with the code.
\<close>

definition strictly_descending :: "int64 list \<Rightarrow> bool" where
  "strictly_descending xs = sorted_wrt (\<lambda>x y. y <s x) xs"

text \<open>
  The specification's scan: the offset starts at the number of entries plus 10 and loses
  1 for every entry tested; the entries tested are those before the first one strictly
  below \<open>secs\<close>, and that one.  If no entry is below \<open>secs\<close> the offset ends at 10.
\<close>

definition spec_offset :: "int64 list \<Rightarrow> int64 \<Rightarrow> int" where
  "spec_offset tbl secs =
     (case find (\<lambda>l. l <s secs) tbl of
        None \<Rightarrow> 10
      | Some _ \<Rightarrow>
          int (length tbl) + 10 - (int (length (takeWhile (\<lambda>l. \<not> l <s secs) tbl)) + 1))"

text \<open>Hexadecimal digits and the number a string of them denotes.\<close>

definition spec_hex_digit :: "char \<Rightarrow> nat option" where
  "spec_hex_digit c =
     map_of
       [(CHR ''0'', 0), (CHR ''1'', 1), (CHR ''2'', 2), (CHR ''3'', 3), (CHR ''4'', 4),
        (CHR ''5'', 5), (CHR ''6'', 6), (CHR ''7'', 7), (CHR ''8'', 8), (CHR ''9'', 9),
        (CHR ''a'', 10), (CHR ''b'', 11), (CHR ''c'', 12), (CHR ''d'', 13), (CHR ''e'', 14),
        (CHR ''f'', 15),
        (CHR ''A'', 10), (CHR ''B'', 11), (CHR ''C'', 12), (CHR ''D'', 13), (CHR ''E'', 14),
        (CHR ''F'', 15)] c"

fun spec_hex_from :: "nat \<Rightarrow> string \<Rightarrow> nat option" where
  "spec_hex_from n [] = Some n"
| "spec_hex_from n (c # cs) =
     (case spec_hex_digit c of None \<Rightarrow> None | Some d \<Rightarrow> spec_hex_from (16 * n + d) cs)"

definition spec_hex_value :: "string \<Rightarrow> nat option" where
  "spec_hex_value cs = spec_hex_from 0 cs"

text \<open>The number a big-endian byte sequence denotes.\<close>

fun spec_be_from :: "nat \<Rightarrow> byte list \<Rightarrow> nat" where
  "spec_be_from n [] = n"
| "spec_be_from n (b # bs) = spec_be_from (256 * n + unat b) bs"

definition spec_be_value :: "byte list \<Rightarrow> nat" where
  "spec_be_value bs = spec_be_from 0 bs"

section \<open>\<open>time.Unix\<close>\<close>

text \<open>
  Go's truncated quotient and the correction that follows it in \<open>time.Unix\<close> amount to
  the floor quotient and the non-negative remainder.
\<close>

lemma trunc_floor:
  fixes N q r :: int
  assumes "q = N sdiv 1000000000" "r = N - q * 1000000000"
  shows "(if r < 0 then q - 1 else q) = N div 1000000000"
    and "(if r < 0 then r + 1000000000 else r) = N mod 1000000000"
    and "- 1000000000 < r" "r < 1000000000"
proof -
  have r: "r = N smod 1000000000"
    using assms by (simp add: minus_sdiv_mult_eq_smod)
  have m: "0 \<le> N mod 1000000000" "N mod 1000000000 < 1000000000" by simp_all
  have d: "N = N div 1000000000 * 1000000000 + N mod 1000000000" by simp
  show "(if r < 0 then q - 1 else q) = N div 1000000000"
    and "(if r < 0 then r + 1000000000 else r) = N mod 1000000000"
    and "- 1000000000 < r" "r < 1000000000"
    using m d unfolding r assms(1)
    by (auto simp add: signed_divide_int_eq_divide_int signed_modulo_int_eq_modulo_int sgn_if
       dvd_eq_mod_eq_0 simp del: div_mult_mod_eq)
qed

lemma sint64_bounds:
  "- 9223372036854775808 \<le> sint (w :: int64)" "sint (w :: int64) < 9223372036854775808"
  using sint_greater_eq [of w] sint_less [of w] by simp_all

lemma sint_small64:
  "- 9223372036854775808 \<le> k \<Longrightarrow> k < 9223372036854775808 \<Longrightarrow> sint (word_of_int k :: int64) = k"
  by (simp add: signed_of_int signed_take_bit_int_eq_self)

lemma sint_ucast_small:
  assumes "0 \<le> k" "k < 1000000000"
  shows "sint (ucast (word_of_int k :: int64) :: int32) = k"
proof -
  have "uint (word_of_int k :: int64) = k"
    using assms by (simp add: unsigned_of_int take_bit_int_eq_self)
  then have "(ucast (word_of_int k :: int64) :: int32) = word_of_int k"
    by (metis word_of_int_uint ucast_eq unsigned_of_int)
  then show ?thesis
    using assms by (simp add: signed_of_int signed_take_bit_int_eq_self)
qed

lemma Unix_fields:
  "tsec (Unix sec0 nsec0) = sec0 + word_of_int (sint nsec0 div 1000000000) + unixToInternal"
  "sint (tnsec (Unix sec0 nsec0)) = sint nsec0 mod 1000000000"
  "tloc (Unix sec0 nsec0) = Some Local"
proof -
  define N where "N = sint nsec0"
  define q where "q = N sdiv 1000000000"
  define r where "r = N - q * 1000000000"
  note tf = trunc_floor [OF q_def r_def]
  have n: "quo64 nsec0 1000000000 = word_of_int q"
    by (simp add: quo64_def q_def N_def)
  have "nsec0 - word_of_int q * 1000000000 = word_of_int r"
    by (simp add: r_def N_def)
  then have nsec1: "nsec0 - quo64 nsec0 1000000000 * 1000000000 = word_of_int r"
    by (simp only: n)
  have sr: "sint (word_of_int r :: int64) = r"
    using tf(3,4) by (intro sint_small64) simp_all
  have neg: "(word_of_int r :: int64) <s 0 \<longleftrightarrow> r < 0"
    by (simp add: word_sless_alt sr)
  have out: "nsec0 <s 0 \<or> 1000000000 \<le>s nsec0 \<longleftrightarrow> N < 0 \<or> 1000000000 \<le> N"
    by (simp add: word_sless_alt word_sle_eq N_def)
  have U: "Unix sec0 nsec0 =
     (if N < 0 \<or> 1000000000 \<le> N then
        (if r < 0
         then \<lparr>tsec = sec0 + word_of_int q - 1 + unixToInternal,
               tnsec = ucast (word_of_int r + 1000000000 :: int64), tloc = Some Local\<rparr>
         else \<lparr>tsec = sec0 + word_of_int q + unixToInternal,
               tnsec = ucast (word_of_int r :: int64), tloc = Some Local\<rparr>)
      else \<lparr>tsec = sec0 + unixToInternal, tnsec = ucast nsec0, tloc = Some Local\<rparr>)"
    by (simp only: Unix_def Let_def nsec1) (simp add: n neg out)
  have inr: "N div 1000000000 = 0 \<and> N mod 1000000000 = N \<and> q = 0 \<and> r = N"
    if "\<not> (N < 0 \<or> 1000000000 \<le> N)"
    using that by (simp add: q_def r_def signed_divide_int_def)
  show "tsec (Unix sec0 nsec0) = sec0 + word_of_int (sint nsec0 div 1000000000) + unixToInternal"
    unfolding U N_def [symmetric] tf(1) [symmetric]
    by (auto simp add: inr)
  have nn: "0 \<le> N mod 1000000000" "N mod 1000000000 < 1000000000" by simp_all
  have "nsec0 = word_of_int N" by (simp add: N_def)
  then have "tnsec (Unix sec0 nsec0) = ucast (word_of_int (N mod 1000000000) :: int64)"
    unfolding U tf(2) [symmetric]
    by (auto simp add: inr)
  then have "sint (tnsec (Unix sec0 nsec0)) = N mod 1000000000"
    using nn by (simp only: sint_ucast_small)
  then show "sint (tnsec (Unix sec0 nsec0)) = sint nsec0 mod 1000000000"
    by (simp add: N_def)
  show "tloc (Unix sec0 nsec0) = Some Local"
    by (simp add: Unix_def Let_def split: prod.splits)
qed

lemma Time_Unix_Unix:
  "Time_Unix (Unix sec0 nsec0) = sec0 + word_of_int (sint nsec0 div 1000000000)"
  by (simp add: Time_Unix_def internalToUnix_def Unix_fields)

lemma Nanosecond_Unix: "Nanosecond (Unix sec0 nsec0) = sint nsec0 mod 1000000000"
  by (simp add: Nanosecond_def Unix_fields)

section \<open>The scan of the leap-second table\<close>

lemma leapSeconds_length: "length leapSeconds = 26"
  by (simp add: leapSeconds_def)

lemma leapSeconds_descending: "strictly_descending leapSeconds"
  by (simp add: leapSeconds_def strictly_descending_def)

text \<open>The loop takes 1 from the offset for every entry it tests.\<close>

lemma EpochTime_loop_takeWhile:
  "EpochTime_loop tbl secs offset =
     offset - (if length (takeWhile (\<lambda>l. \<not> l <s secs) tbl) < length tbl
               then int (length (takeWhile (\<lambda>l. \<not> l <s secs) tbl)) + 1
               else int (length tbl))"
  by (induction tbl arbitrary: offset) (auto simp add: Let_def)

lemma EpochTime_loop_decrements:
  "0 \<le> offset - EpochTime_loop tbl secs offset"
  "offset - EpochTime_loop tbl secs offset \<le> int (length tbl)"
  by (simp_all add: EpochTime_loop_takeWhile)

lemma find_None_takeWhile:
  "(find P xs = None) = (length (takeWhile (\<lambda>x. \<not> P x) xs) = length xs)"
  by (induction xs) auto

lemma EpochTime_offset_spec: "EpochTime_offset secs = spec_offset leapSeconds secs"
proof -
  have "length (takeWhile (\<lambda>l. \<not> l <s secs) leapSeconds) \<le> length leapSeconds"
    by (rule length_takeWhile_le)
  then show ?thesis
    using find_None_takeWhile [of "\<lambda>l. l <s secs" leapSeconds]
    by (auto simp add: EpochTime_offset_def EpochTime_loop_takeWhile spec_offset_def
        split: option.splits)
qed

text \<open>
  On a strictly descending table every entry after the first one below \<open>secs\<close> is below
  \<open>secs\<close> too, so the offset counts the entries below \<open>secs\<close>, the last entry apart.
\<close>

lemma EpochTime_loop_descending:
  "strictly_descending tbl \<Longrightarrow>
   EpochTime_loop tbl secs offset =
     offset - int (length tbl) + int (length (filter (\<lambda>l. l <s secs) (butlast tbl)))"
proof (induction tbl arbitrary: offset)
  case Nil
  then show ?case by simp
next
  case (Cons l ls)
  show ?case
  proof (cases "l <s secs")
    case True
    have "\<forall>y \<in> set ls. y <s secs"
      using Cons.prems True by (auto simp add: strictly_descending_def word_sless_alt)
    then have "filter (\<lambda>l. l <s secs) (butlast ls) = butlast ls"
      by (auto simp add: filter_id_conv dest: in_set_butlastD)
    then show ?thesis using True by (cases ls) auto
  next
    case False
    then show ?thesis using Cons by (cases ls) (auto simp add: strictly_descending_def)
  qed
qed

lemma EpochTime_offset_count:
  "EpochTime_offset secs = 10 + int (length (filter (\<lambda>l. l <s secs) (butlast leapSeconds)))"
  by (simp add: EpochTime_offset_def EpochTime_loop_descending [OF leapSeconds_descending]
      leapSeconds_length)

lemma EpochTime_offset_bounds: "10 \<le> EpochTime_offset secs" "EpochTime_offset secs \<le> 35"
proof -
  have "length (filter (\<lambda>l. l <s secs) (butlast leapSeconds)) \<le> length (butlast leapSeconds)"
    by (rule length_filter_le)
  then show "10 \<le> EpochTime_offset secs" "EpochTime_offset secs \<le> 35"
    by (simp_all add: EpochTime_offset_count leapSeconds_length)
qed

section \<open>Claims about \<open>EpochTime\<close> and the table\<close>

text \<open>
  Claim C1.  For every signed 64-bit \<open>secs\<close> and \<open>nsecs\<close>, \<open>EpochTime\<close> returns
  \<open>time.Unix(secs - offset, nsecs)\<close> for the offset of the specification's scan: start at
  the number of table entries plus 10, visit the table in its stored order, take 1 off
  before each test, stop at the first entry strictly below \<open>secs\<close>, and end at 10 when no
  entry is below \<open>secs\<close>.  The subtraction is Go's \<open>int64\<close> subtraction.  The returned
  instant reports \<open>secs - offset\<close> plus the whole seconds of \<open>nsecs\<close> as its Unix seconds,
  and the rest of \<open>nsecs\<close> as its nanoseconds.
\<close>

theorem EpochTime_scan_spec:
  "EpochTime secs nsecs = Unix (secs - word_of_int (spec_offset leapSeconds secs)) nsecs
   \<and> Time_Unix (EpochTime secs nsecs) =
       secs - word_of_int (spec_offset leapSeconds secs) + word_of_int (sint nsecs div 1000000000)
   \<and> Nanosecond (EpochTime secs nsecs) = sint nsecs mod 1000000000"
  by (simp add: EpochTime_def EpochTime_offset_spec Time_Unix_Unix Nanosecond_Unix)

text \<open>
  Claim C5, as stated: \<open>EpochTime(2^62 - 10, 0)\<close> is the Unix epoch.  It is not: the
  argument is far above every table entry, the offset is 35, and the result lies
  \<open>2^62 - 45\<close> seconds after the Unix epoch.
\<close>

theorem EpochTime_label_bias_not_epoch:
  "Time_Unix (EpochTime (2 ^ 62 - 10) 0) = 4611686018427387859 \<and> Time_Unix (Unix 0 0) = 0
   \<and> EpochTime (2 ^ 62 - 10) 0 \<noteq> Unix 0 0"
proof -
  have a: "Time_Unix (EpochTime (2 ^ 62 - 10) 0) = 4611686018427387859"
    by (simp add: EpochTime_def EpochTime_offset_def leapSeconds_def Time_Unix_Unix)
  have b: "Time_Unix (Unix 0 0) = 0"
    by (simp add: Time_Unix_Unix)
  from a b have "Time_Unix (EpochTime (2 ^ 62 - 10) 0) \<noteq> Time_Unix (Unix 0 0)"
    by simp
  then have "EpochTime (2 ^ 62 - 10) 0 \<noteq> Unix 0 0"
    by auto
  with a b show ?thesis by simp
qed

text \<open>
  Claim C5, amended.  \<open>EpochTime\<close> takes the seconds with the bias \<open>2^62\<close> already
  removed, and 10 of them, the base difference between TAI and UTC, reach the Unix epoch:
  \<open>EpochTime(10, 0)\<close> is \<open>time.Unix(0, 0)\<close>, 1970-01-01T00:00:00Z.
\<close>

theorem EpochTime_ten_is_unix_epoch:
  "EpochTime 10 0 = Unix 0 0 \<and> Time_Unix (EpochTime 10 0) = 0 \<and> Nanosecond (EpochTime 10 0) = 0"
  by (simp add: EpochTime_def EpochTime_offset_def leapSeconds_def Time_Unix_Unix Nanosecond_Unix)

text \<open>
  Claim C7.  \<open>EpochTime\<close> has no error result and returns for every \<open>secs\<close> and \<open>nsecs\<close>.
  Its loop ranges over the entries of the table, reading no index of its own, and takes
  1 off the offset at most once per entry, on any table; on the program's table the offset
  ends between 10 and 35.  The value returned is the one \<open>time.Unix\<close> builds, a
  well-formed instant with its nanoseconds in \<open>[0, 1e9)\<close>.
\<close>

theorem EpochTime_total:
  "0 \<le> offset0 - EpochTime_loop tbl secs offset0
   \<and> offset0 - EpochTime_loop tbl secs offset0 \<le> int (length tbl)
   \<and> 10 \<le> EpochTime_offset secs \<and> EpochTime_offset secs \<le> 35
   \<and> EpochTime secs nsecs = Unix (secs - word_of_int (EpochTime_offset secs)) nsecs
   \<and> tloc (EpochTime secs nsecs) = Some Local
   \<and> 0 \<le> Nanosecond (EpochTime secs nsecs) \<and> Nanosecond (EpochTime secs nsecs) < 1000000000"
  using EpochTime_loop_decrements [of offset0 tbl secs] EpochTime_offset_bounds [of secs]
  by (simp add: EpochTime_def Nanosecond_Unix Unix_fields)

section \<open>The package variables are only read\<close>

lemma EpochTime_st_frame: "snd (EpochTime_st g secs nsecs) = g"
  by (simp add: EpochTime_st_def Let_def)

lemma ParseTai64_st_frame: "snd (ParseTai64_st g s) = g"
  by (simp add: ParseTai64_st_def EpochTime_st_def Let_def split: option.splits sum.splits)

lemma ParseTai64n_st_frame: "snd (ParseTai64n_st g s) = g"
  by (simp add: ParseTai64n_st_def EpochTime_st_def Let_def split: option.splits sum.splits)

lemma DecodeTai64_st_frame: "snd (DecodeTai64_st g b) = g"
  by (simp add: DecodeTai64_st_def EpochTime_st_def Let_def split: option.splits)

lemma DecodeTai64n_st_frame: "snd (DecodeTai64n_st g b) = g"
  by (simp add: DecodeTai64n_st_def EpochTime_st_def Let_def split: option.splits)

lemma state_after_frame: "state_after g c = g"
  by (cases c)
    (simp_all add: EpochTime_st_frame ParseTai64_st_frame ParseTai64n_st_frame
      DecodeTai64_st_frame DecodeTai64n_st_frame)

lemma run_frame: "run g cs = g"
  by (induction cs arbitrary: g) (simp_all add: state_after_frame)

text \<open>
  In the initial state the functions on the state return what the functions of the
  sections above return: they are the same program.
\<close>

lemma EpochTime_st_init: "fst (EpochTime_st package_init secs nsecs) = EpochTime secs nsecs"
  by (simp add: EpochTime_st_def package_init_def EpochTime_def EpochTime_offset_def Let_def)

lemma EpochTime_st_init_pair:
  "EpochTime_st package_init secs nsecs = (EpochTime secs nsecs, package_init)"
  using EpochTime_st_init [of secs nsecs] EpochTime_st_frame [of package_init secs nsecs]
  by (simp add: prod_eq_iff)

lemma var_parseError_init: "var_parseError package_init = parseError"
  by (simp add: package_init_def)

lemma ParseTai64_st_init: "fst (ParseTai64_st package_init s) = ParseTai64 s"
  by (simp add: ParseTai64_st_def ParseTai64_def EpochTime_st_init_pair var_parseError_init
      split: option.splits sum.splits)

lemma ParseTai64n_st_init: "fst (ParseTai64n_st package_init s) = ParseTai64n s"
  by (simp add: ParseTai64n_st_def ParseTai64n_def EpochTime_st_init_pair var_parseError_init
      split: option.splits sum.splits)

lemma DecodeTai64_st_init: "fst (DecodeTai64_st package_init b) = DecodeTai64 b"
  by (simp add: DecodeTai64_st_def DecodeTai64_def EpochTime_st_init_pair var_parseError_init
      split: option.splits)

lemma DecodeTai64n_st_init: "fst (DecodeTai64n_st package_init b) = DecodeTai64n b"
  by (simp add: DecodeTai64n_st_def DecodeTai64n_def EpochTime_st_init_pair var_parseError_init
      split: option.splits)

text \<open>
  Claim C8.  The leap-second table, as the package's initialisation leaves it, has 26
  entries in strictly descending order.  Each entry is a count of TAI seconds since the
  Unix epoch: a UTC midnight plus a number of seconds that falls by one from entry to
  entry, from 34 for the newest entry to 9 for the oldest.  No operation of the package
  mutates it: each of \<open>EpochTime\<close>, \<open>ParseTai64\<close>, \<open>ParseTai64n\<close>, \<open>DecodeTai64\<close> and
  \<open>DecodeTai64n\<close>, called in any state and on any arguments, returns the package variables
  as it found them, so after any sequence of calls from the initial state the table is
  still those 26 entries.  In the initial state the five functions return the results
  of the functions of the earlier sections.
\<close>

theorem leapSeconds_table:
  "length (var_leapSeconds package_init) = 26
   \<and> strictly_descending (var_leapSeconds package_init)
   \<and> map (\<lambda>l. sint l mod secondsPerDay) (var_leapSeconds package_init) =
       [34, 33, 32, 31, 30, 29, 28, 27, 26, 25, 24, 23, 22, 21, 20, 19, 18, 17, 16, 15, 14, 13,
        12, 11, 10, 9]
   \<and> snd (EpochTime_st g secs nsecs) = g
   \<and> snd (ParseTai64_st g s) = g
   \<and> snd (ParseTai64n_st g sn) = g
   \<and> snd (DecodeTai64_st g b) = g
   \<and> snd (DecodeTai64n_st g bn) = g
   \<and> var_leapSeconds (run package_init calls) = leapSeconds
   \<and> run package_init calls = package_init
   \<and> fst (EpochTime_st package_init secs nsecs) = EpochTime secs nsecs
   \<and> fst (ParseTai64_st package_init s) = ParseTai64 s
   \<and> fst (ParseTai64n_st package_init sn) = ParseTai64n sn
   \<and> fst (DecodeTai64_st package_init b) = DecodeTai64 b
   \<and> fst (DecodeTai64n_st package_init bn) = DecodeTai64n bn"
proof -
  have t: "var_leapSeconds package_init = leapSeconds"
    by (simp add: package_init_def)
  have 1: "length leapSeconds = 26"
    by (rule leapSeconds_length)
  have 2: "strictly_descending leapSeconds"
    by (rule leapSeconds_descending)
  have 3: "map (\<lambda>l. sint l mod secondsPerDay) leapSeconds =
       [34, 33, 32, 31, 30, 29, 28, 27, 26, 25, 24, 23, 22, 21, 20, 19, 18, 17, 16, 15, 14, 13,
        12, 11, 10, 9]"
    by (simp add: leapSeconds_def secondsPerDay_def)
  show ?thesis
    unfolding t run_frame
    using 1 2 3
    by (simp add: t EpochTime_st_frame ParseTai64_st_frame ParseTai64n_st_frame
        DecodeTai64_st_frame DecodeTai64n_st_frame EpochTime_st_init ParseTai64_st_init
        ParseTai64n_st_init DecodeTai64_st_init DecodeTai64n_st_init)
qed

section \<open>\<open>strconv.ParseUint\<close> on hexadecimal digits\<close>

lemma not_16_le_1: "\<not> 16 \<le> (1 :: byte)"
  by (simp add: word_le_nat_alt)

text \<open>
  The digit switch of \<open>ParseUint\<close> followed by its test against the base accepts the 22
  hexadecimal digits and nothing else; checked on each of the 256 bytes.
\<close>

lemma digit_of_spec:
  "(case digit_of (byte_of c) of
      None \<Rightarrow> None
    | Some d \<Rightarrow> if 16 \<le> d then None else Some (unat d)) = spec_hex_digit c"
proof (cases c)
  case (Char b0 b1 b2 b3 b4 b5 b6 b7)
  show ?thesis
    unfolding Char
    by (cases b0; cases b1; cases b2; cases b3; cases b4; cases b5; cases b6; cases b7;
        simp add: spec_hex_digit_def digit_of_def lower_def byte_of_def not_16_le_1)
qed

lemma digit_of_cases:
  "(spec_hex_digit c = None \<and>
      (digit_of (byte_of c) = None \<or> (\<exists>d. digit_of (byte_of c) = Some d \<and> 16 \<le> d)))
   \<or> (\<exists>d. digit_of (byte_of c) = Some d \<and> \<not> 16 \<le> d \<and> spec_hex_digit c = Some (unat d))"
  using digit_of_spec [of c]
  by (auto split: option.splits if_splits)

lemma cutoff_eq: "((- 1) div 16 + 1 :: uint64) = 1152921504606846976"
  by simp

lemma spec_hex_digit_less: "spec_hex_digit c = Some d \<Longrightarrow> d < 16"
  by (auto simp add: spec_hex_digit_def split: if_splits)

lemma spec_hex_from_less:
  "spec_hex_from n cs = Some v \<Longrightarrow> n < 16 ^ k \<Longrightarrow> v < 16 ^ (k + length cs)"
proof (induction cs arbitrary: n k)
  case Nil
  then show ?case by simp
next
  case (Cons c cs)
  from Cons.prems(1) obtain d where d: "spec_hex_digit c = Some d"
    and r: "spec_hex_from (16 * n + d) cs = Some v"
    by (auto split: option.splits)
  have "d < 16" using d by (rule spec_hex_digit_less)
  with Cons.prems(2) have "16 * n + d < 16 ^ Suc k" by simp
  from Cons.IH [OF r this] show ?case by simp
qed

lemma spec_hex_value_less: "spec_hex_value cs = Some v \<Longrightarrow> v < 16 ^ length cs"
  using spec_hex_from_less [of 0 cs v 0] by (simp add: spec_hex_value_def)

text \<open>
  One round of the loop on a digit \<open>d\<close>, when the digits read so far and the digits still
  to come fit the bit size: neither range test fires and the accumulator becomes
  \<open>16 * n + d\<close>.
\<close>

lemma ParseUint16_step:
  fixes n :: uint64 and d :: byte
  assumes "unat n < 16 ^ k" "Suc k \<le> m" "m \<le> 16" "16 ^ m \<le> unat maxVal + 1" "\<not> 16 \<le> d"
  shows "\<not> 1152921504606846976 \<le> n"
    and "\<not> (n * 16 + ucast d < n * 16 \<or> maxVal < n * 16 + ucast d)"
    and "unat (n * 16 + ucast d) = 16 * unat n + unat d"
    and "unat (n * 16 + ucast d) < 16 ^ Suc k"
proof -
  have dlt: "unat d < 16"
    using assms(5) by (simp add: word_le_nat_alt)
  have "unat d < 2 ^ 64"
    using dlt by simp
  then have ud: "unat (ucast d :: uint64) = unat d"
    by (simp add: unsigned_ucast_eq take_bit_nat_eq_self)
  have "k \<le> 15" using assms(2,3) by simp
  then have "(16::nat) ^ k \<le> 16 ^ 15"
    by (intro power_increasing) simp_all
  with assms(1) have nlt: "unat n < 1152921504606846976" by simp
  then show "\<not> 1152921504606846976 \<le> n"
    by (simp add: word_le_nat_alt)
  have um: "unat (n * 16) = unat n * 16"
    using nlt by (simp add: unat_word_ariths)
  show ua: "unat (n * 16 + ucast d) = 16 * unat n + unat d"
    using nlt dlt by (simp add: unat_word_ariths ud mod_mult_right_eq mod_add_left_eq)
  have "16 * unat n + unat d < 16 * 16 ^ k"
    using assms(1) dlt by simp
  then show lt: "unat (n * 16 + ucast d) < 16 ^ Suc k"
    by (simp add: ua)
  have "(16::nat) ^ Suc k \<le> 16 ^ m"
    using assms(2) by (intro power_increasing) simp_all
  with lt assms(4) have "unat (n * 16 + ucast d) \<le> unat maxVal" by simp
  moreover have "unat (n * 16) \<le> unat (n * 16 + ucast d)"
    by (simp add: ua um)
  ultimately show "\<not> (n * 16 + ucast d < n * 16 \<or> maxVal < n * 16 + ucast d)"
    by (simp add: word_less_nat_alt)
qed

lemma ParseUint16_loop_spec:
  assumes "unat n < 16 ^ k" "k + length cs \<le> m" "m \<le> 16" "16 ^ m \<le> unat maxVal + 1"
  shows "ParseUint16_loop maxVal n (map byte_of cs) =
     (case spec_hex_from (unat n) cs of None \<Rightarrow> Inl ErrSyntax | Some v \<Rightarrow> Inr (word_of_nat v))"
  using assms
proof (induction cs arbitrary: n k)
  case Nil
  then show ?case by simp
next
  case (Cons c cs)
  from digit_of_cases [of c] show ?case
  proof (elim disjE conjE exE)
    assume "spec_hex_digit c = None" "digit_of (byte_of c) = None"
    then show ?thesis by simp
  next
    fix d assume "spec_hex_digit c = None" "digit_of (byte_of c) = Some d" "16 \<le> d"
    then show ?thesis by simp
  next
    fix d
    assume d: "digit_of (byte_of c) = Some d" "\<not> 16 \<le> d" "spec_hex_digit c = Some (unat d)"
    have k: "Suc k \<le> m" "Suc k + length cs \<le> m" using Cons.prems(2) by simp_all
    note st = ParseUint16_step [OF Cons.prems(1) k(1) Cons.prems(3,4) d(2)]
    have "ParseUint16_loop maxVal n (map byte_of (c # cs)) =
          ParseUint16_loop maxVal (n * 16 + ucast d) (map byte_of cs)"
      using d(1,2) st(1,2) by (simp add: cutoff_eq Let_def)
    also have "\<dots> = (case spec_hex_from (unat (n * 16 + ucast d)) cs of
                        None \<Rightarrow> Inl ErrSyntax | Some v \<Rightarrow> Inr (word_of_nat v))"
      by (rule Cons.IH [OF st(4) k(2) Cons.prems(3,4)])
    finally show ?thesis by (simp add: d(3) st(3))
  qed
qed

lemma ParseUint16_64:
  assumes "length cs = 16"
  shows "ParseUint16 cs 64 =
     (case spec_hex_value cs of None \<Rightarrow> Inl ErrSyntax | Some v \<Rightarrow> Inr (word_of_nat v))"
proof -
  have ne: "cs \<noteq> []" using assms by auto
  have mv: "(push_bit 64 1 - 1 :: uint64) = - 1" by simp
  show ?thesis
    unfolding ParseUint16_def spec_hex_value_def mv
    using ne ParseUint16_loop_spec [of 0 0 cs 16 "- 1"] assms
    by (simp add: unsigned_minus_1_eq_mask mask_eq_exp_minus_1)
qed

lemma ParseUint16_32:
  assumes "length cs = 8"
  shows "ParseUint16 cs 32 =
     (case spec_hex_value cs of None \<Rightarrow> Inl ErrSyntax | Some v \<Rightarrow> Inr (word_of_nat v))"
proof -
  have ne: "cs \<noteq> []" using assms by auto
  have mv: "unat (push_bit 32 1 - 1 :: uint64) = 4294967295" by simp
  show ?thesis
    unfolding ParseUint16_def spec_hex_value_def
    using ne ParseUint16_loop_spec [of 0 0 cs 8 "push_bit 32 1 - 1"] assms
    by (simp add: mv)
qed

section \<open>\<open>binary.BigEndian\<close>\<close>

lemma spec_be_from_less:
  "n < 256 ^ k \<Longrightarrow> spec_be_from n bs < 256 ^ (k + length bs)"
proof (induction bs arbitrary: n k)
  case Nil
  then show ?case by simp
next
  case (Cons b bs)
  have "unat b < 256" using unsigned_less [of b] by simp
  with Cons.prems have "256 * n + unat b < 256 ^ Suc k" by simp
  from Cons.IH [OF this] show ?case by simp
qed

lemma spec_be_value_less: "spec_be_value b < 256 ^ length b"
  using spec_be_from_less [of 0 0 b] by (simp add: spec_be_value_def)

lemma list8:
  "length b = 8 \<Longrightarrow> \<exists>b0 b1 b2 b3 b4 b5 b6 b7. b = [b0, b1, b2, b3, b4, b5, b6, b7]"
  by (auto simp add: length_Suc_conv numeral_eq_Suc)

lemma list4: "length b = 4 \<Longrightarrow> \<exists>b0 b1 b2 b3. b = [b0, b1, b2, b3]"
  by (auto simp add: length_Suc_conv numeral_eq_Suc)

text \<open>A byte and a word shifted left by 8 share no bit: their \<open>OR\<close> is their sum.\<close>

lemma or_plus64:
  fixes b :: byte and r :: uint64
  shows "ucast b OR push_bit 8 r = ucast b + push_bit 8 r"
proof -
  have "ucast b AND push_bit 8 r = 0"
    by (rule bit_eqI) (auto simp add: bit_simps dest: bit_imp_le_length)
  then show ?thesis
    by (rule disjunctive_add_eq_or [symmetric])
qed

lemma or_plus32:
  fixes b :: byte and r :: uint32
  shows "ucast b OR push_bit 8 r = ucast b + push_bit 8 r"
proof -
  have "ucast b AND push_bit 8 r = 0"
    by (rule bit_eqI) (auto simp add: bit_simps dest: bit_imp_le_length)
  then show ?thesis
    by (rule disjunctive_add_eq_or [symmetric])
qed

lemma BE64_nested:
  fixes b0 b1 b2 b3 b4 b5 b6 b7 :: byte
  shows "(ucast b7 OR push_bit 8 (ucast b6) OR push_bit 16 (ucast b5)
        OR push_bit 24 (ucast b4) OR push_bit 32 (ucast b3)
        OR push_bit 40 (ucast b2) OR push_bit 48 (ucast b1)
        OR push_bit 56 (ucast b0) :: uint64)
     = ucast b7 OR push_bit 8 (ucast b6 OR push_bit 8 (ucast b5 OR push_bit 8 (ucast b4
        OR push_bit 8 (ucast b3 OR push_bit 8 (ucast b2 OR push_bit 8 (ucast b1
        OR push_bit 8 (ucast b0)))))))"
  by (simp add: push_bit_or push_bit_push_bit flip: push_bit_add)

lemma BE32_nested:
  fixes b0 b1 b2 b3 :: byte
  shows "(ucast b3 OR push_bit 8 (ucast b2) OR push_bit 16 (ucast b1)
        OR push_bit 24 (ucast b0) :: uint32)
     = ucast b3 OR push_bit 8 (ucast b2 OR push_bit 8 (ucast b1 OR push_bit 8 (ucast b0)))"
  by (simp add: push_bit_or push_bit_push_bit flip: push_bit_add)

lemma BigEndian_Uint64_value:
  assumes "length b = 8"
  shows "BigEndian_Uint64 b = Some (word_of_nat (spec_be_value b))"
proof -
  from list8 [OF assms] obtain b0 b1 b2 b3 b4 b5 b6 b7
    where b: "b = [b0, b1, b2, b3, b4, b5, b6, b7]"
    by blast
  have "BigEndian_Uint64 b = Some (ucast b7 + push_bit 8 (ucast b6 + push_bit 8 (ucast b5
        + push_bit 8 (ucast b4 + push_bit 8 (ucast b3 + push_bit 8 (ucast b2
        + push_bit 8 (ucast b1 + push_bit 8 (ucast b0))))))))"
    unfolding b BigEndian_Uint64_def
    by (simp add: BE64_nested or_plus64 del: push_bit_or)
  also have "\<dots> = Some (word_of_nat (spec_be_value b))"
    unfolding b by (simp add: spec_be_value_def push_bit_eq_mult algebra_simps)
  finally show ?thesis .
qed

lemma BigEndian_Uint32_value:
  assumes "length b = 4"
  shows "BigEndian_Uint32 b = Some (word_of_nat (spec_be_value b))"
proof -
  from list4 [OF assms] obtain b0 b1 b2 b3 where b: "b = [b0, b1, b2, b3]"
    by blast
  have "BigEndian_Uint32 b =
      Some (ucast b3 + push_bit 8 (ucast b2 + push_bit 8 (ucast b1 + push_bit 8 (ucast b0))))"
    unfolding b BigEndian_Uint32_def
    by (simp add: BE32_nested or_plus32 del: push_bit_or)
  also have "\<dots> = Some (word_of_nat (spec_be_value b))"
    unfolding b by (simp add: spec_be_value_def push_bit_eq_mult algebra_simps)
  finally show ?thesis .
qed

section \<open>The decoders in terms of the numbers their inputs denote\<close>

text \<open>The range guard and the bias on a label below \<open>2^64\<close>.\<close>

lemma guard_nat:
  assumes "v < 2 ^ 64"
  shows "(2 ^ 63 < (word_of_nat v :: uint64)) \<longleftrightarrow> 2 ^ 63 < v"
    and "(word_of_nat v :: uint64) - 2 ^ 62 = word_of_int (int v - 2 ^ 62)"
  using assms by (simp_all add: word_less_nat_alt unat_of_nat)

lemma marker_iff: "length s = Suc n \<Longrightarrow> (take 1 s = [c]) = (s ! 0 = c)"
  by (cases s) auto

lemma spec_hex_from_None:
  "(spec_hex_from n cs = None) = (\<exists>c \<in> set cs. spec_hex_digit c = None)"
  by (induction cs arbitrary: n) (auto split: option.splits)

lemma spec_hex_value_None:
  "(spec_hex_value cs = None) = (\<exists>c \<in> set cs. spec_hex_digit c = None)"
  by (simp add: spec_hex_value_def spec_hex_from_None)

lemma ParseTai64_eq:
  "ParseTai64 s =
     (if length s = 17 \<and> take 1 s = ''@'' then
        (case spec_hex_value (drop 1 s) of
           None \<Rightarrow> Some (Time_zero, Some parseError)
         | Some v \<Rightarrow>
             if v \<le> 2 ^ 63 then Some (EpochTime (word_of_int (int v - 2 ^ 62)) 0, None)
             else Some (Time_zero, Some parseError))
      else Some (Time_zero, Some parseError))"
proof (cases "length s = 17")
  case False
  then show ?thesis by (simp add: ParseTai64_def)
next
  case True
  then have len: "length (drop (Suc 0) s) = 16" by simp
  have sl: "go_slice s (Suc 0) 17 = Some (drop (Suc 0) s)"
    using True by (simp add: go_slice_def)
  have ix: "go_index s 0 = Some (s ! 0)"
    using True by (simp add: go_index_def)
  have mk: "(take (Suc 0) s = ''@'') = (s ! 0 = CHR ''@'')"
    using marker_iff [of s 16 "CHR ''@''"] True by simp
  show ?thesis
  proof (cases "spec_hex_value (drop (Suc 0) s)")
    case None
    then show ?thesis using True
      by (simp add: ParseTai64_def sl ix mk ParseUint16_64 [OF len])
  next
    case (Some v)
    have "v < 2 ^ 64" using spec_hex_value_less [OF Some] len by simp
    note g = guard_nat [OF this]
    show ?thesis using True Some g
      by (simp add: ParseTai64_def sl ix mk ParseUint16_64 [OF len] not_less)
  qed
qed

lemma ParseTai64n_eq:
  "ParseTai64n s =
     (if length s = 25 \<and> take 1 s = ''@'' then
        (case spec_hex_value (take 16 (drop 1 s)) of
           None \<Rightarrow> Some (Time_zero, Some parseError)
         | Some v \<Rightarrow>
             (case spec_hex_value (drop 17 s) of
                None \<Rightarrow> Some (Time_zero, Some parseError)
              | Some ns \<Rightarrow>
                  if v \<le> 2 ^ 63
                  then Some (EpochTime (word_of_int (int v - 2 ^ 62)) (word_of_nat ns), None)
                  else Some (Time_zero, Some parseError)))
      else Some (Time_zero, Some parseError))"
proof (cases "length s = 25")
  case False
  then show ?thesis by (simp add: ParseTai64n_def)
next
  case True
  then have len: "length (take 16 (drop (Suc 0) s)) = 16" "length (drop 17 s) = 8" by simp_all
  have sl: "go_slice s (Suc 0) 17 = Some (take 16 (drop (Suc 0) s))"
    "go_slice s 17 25 = Some (drop 17 s)"
    using True by (simp_all add: go_slice_def)
  have ix: "go_index s 0 = Some (s ! 0)"
    using True by (simp add: go_index_def)
  have mk: "(take (Suc 0) s = ''@'') = (s ! 0 = CHR ''@'')"
    using marker_iff [of s 24 "CHR ''@''"] True by simp
  show ?thesis
  proof (cases "spec_hex_value (take 16 (drop (Suc 0) s))")
    case None
    then show ?thesis using True
      by (simp add: ParseTai64n_def sl ix mk ParseUint16_64 [OF len(1)])
  next
    case (Some v)
    have "v < 2 ^ 64" using spec_hex_value_less [OF Some] len by simp
    note g = guard_nat [OF this]
    show ?thesis using True Some g
      by (simp add: ParseTai64n_def sl ix mk ParseUint16_64 [OF len(1)]
          ParseUint16_32 [OF len(2)] not_less split: option.splits)
  qed
qed

lemma DecodeTai64_eq:
  "DecodeTai64 b =
     (if length b = 8 then
        (if spec_be_value b \<le> 2 ^ 63
         then Some (EpochTime (word_of_int (int (spec_be_value b) - 2 ^ 62)) 0, None)
         else Some (Time_zero, Some parseError))
      else Some (Time_zero, Some parseError))"
proof (cases "length b = 8")
  case False
  then show ?thesis by (simp add: DecodeTai64_def)
next
  case True
  have "spec_be_value b < 2 ^ 64" using spec_be_value_less [of b] True by simp
  note g = guard_nat [OF this]
  show ?thesis using True g
    by (simp add: DecodeTai64_def BigEndian_Uint64_value [OF True] not_less)
qed

lemma ucast_nsec:
  assumes "ns < 2 ^ 32"
  shows "(ucast (word_of_nat ns :: uint32) :: int64) = word_of_nat ns"
proof -
  have "unat (word_of_nat ns :: uint32) = ns"
    using assms by (simp add: unat_of_nat)
  then show ?thesis
    by (metis of_nat_unat)
qed

lemma DecodeTai64n_eq:
  "DecodeTai64n b =
     (if length b = 12 then
        (if spec_be_value (take 8 b) \<le> 2 ^ 63
         then Some (EpochTime (word_of_int (int (spec_be_value (take 8 b)) - 2 ^ 62))
                      (word_of_nat (spec_be_value (drop 8 b))), None)
         else Some (Time_zero, Some parseError))
      else Some (Time_zero, Some parseError))"
proof (cases "length b = 12")
  case False
  then show ?thesis by (simp add: DecodeTai64n_def)
next
  case True
  then have len: "length (take 8 b) = 8" "length (drop 8 b) = 4" by simp_all
  have sl: "go_slice b 0 8 = Some (take 8 b)" "go_slice b 8 12 = Some (drop 8 b)"
    using True by (simp_all add: go_slice_def)
  have "spec_be_value (take 8 b) < 2 ^ 64"
    using spec_be_value_less [of "take 8 b"] len by simp
  note g = guard_nat [OF this]
  have "spec_be_value (drop 8 b) < 2 ^ 32"
    using spec_be_value_less [of "drop 8 b"] len by simp
  note u = ucast_nsec [OF this]
  show ?thesis using True g
    by (simp add: DecodeTai64n_def sl BigEndian_Uint64_value [OF len(1)]
        BigEndian_Uint32_value [OF len(2)] u not_less)
qed

section \<open>Claims about the decoders\<close>

lemma bias_sint:
  fixes sec :: uint64
  assumes "sec \<le> 2 ^ 63"
  shows "sint (sec - 2 ^ 62) = uint sec - 2 ^ 62"
    and "- (2 ^ 62) \<le> uint sec - 2 ^ 62" "uint sec - 2 ^ 62 \<le> 2 ^ 62"
proof -
  have u: "0 \<le> uint sec" "uint sec \<le> 2 ^ 63"
    using assms by (simp_all add: word_le_def)
  then show "- (2 ^ 62) \<le> uint sec - 2 ^ 62" "uint sec - 2 ^ 62 \<le> 2 ^ 62"
    by simp_all
  have "sec - 2 ^ 62 = word_of_int (uint sec - 2 ^ 62)"
    by simp
  moreover have "sint (word_of_int (uint sec - 2 ^ 62) :: int64) = uint sec - 2 ^ 62"
    using u by (intro sint_small64) simp_all
  ultimately show "sint (sec - 2 ^ 62) = uint sec - 2 ^ 62"
    by simp
qed

lemma bias_nat:
  assumes "v \<le> 2 ^ 63"
  shows "sint (word_of_int (int v - 2 ^ 62) :: int64) = int v - 2 ^ 62"
  using assms by (intro sint_small64) simp_all

text \<open>
  Claim C6.  \<open>ParseTai64\<close> returns a \<open>nil\<close> error exactly on the strings of 17 characters
  that start with the marker \<open>@\<close> and continue with 16 hexadecimal digits denoting a
  label \<open>v\<close> that passes the range guard, \<open>v \<le> 2^63\<close>; the timestamp it returns is then
  \<open>EpochTime(secs, 0)\<close> for the \<open>int64\<close> \<open>secs\<close> whose value is \<open>v - 2^62\<close>.  On every other
  string it returns the zero timestamp with the parse error; it never panics.
\<close>

theorem ParseTai64_success_iff:
  "(ParseTai64 s = Some (t, None)) =
     (length s = 17 \<and> take 1 s = ''@'' \<and>
      (\<exists>v secs. spec_hex_value (drop 1 s) = Some v \<and> v \<le> 2 ^ 63 \<and>
         sint secs = int v - 2 ^ 62 \<and> t = EpochTime secs 0))
   \<and> (ParseTai64 s = Some (Time_zero, Some parseError) \<or> (\<exists>t'. ParseTai64 s = Some (t', None)))"
proof -
  have secs: "(\<exists>secs :: int64. sint secs = int v - 2 ^ 62 \<and> t = EpochTime secs 0) =
      (t = EpochTime (word_of_int (int v - 2 ^ 62)) 0)" if "v \<le> 2 ^ 63" for v
  proof
    assume "\<exists>secs :: int64. sint secs = int v - 2 ^ 62 \<and> t = EpochTime secs 0"
    then obtain secs :: int64 where s: "sint secs = int v - 2 ^ 62" "t = EpochTime secs 0"
      by blast
    have "secs = word_of_int (sint secs)" by simp
    with s show "t = EpochTime (word_of_int (int v - 2 ^ 62)) 0" by simp
  next
    assume "t = EpochTime (word_of_int (int v - 2 ^ 62)) 0"
    with bias_nat [OF that] show "\<exists>secs :: int64. sint secs = int v - 2 ^ 62 \<and> t = EpochTime secs 0"
      by blast
  qed
  show ?thesis
  proof (cases "length s = 17 \<and> take 1 s = ''@''")
    case False
    then show ?thesis by (auto simp add: ParseTai64_eq)
  next
    case True
    show ?thesis
    proof (cases "spec_hex_value (drop 1 s)")
      case None
      then show ?thesis using True by (simp add: ParseTai64_eq)
    next
      case (Some v)
      show ?thesis
      proof (cases "v \<le> 2 ^ 63")
        case le: True
        have "ParseTai64 s = Some (EpochTime (word_of_int (int v - 2 ^ 62)) 0, None)"
          using True Some le by (simp add: ParseTai64_eq)
        then show ?thesis using True Some le secs [OF le] by auto
      next
        case gt: False
        have "ParseTai64 s = Some (Time_zero, Some parseError)"
          using True Some gt by (simp add: ParseTai64_eq)
        then show ?thesis using True Some gt by auto
      qed
    qed
  qed
qed

text \<open>
  Claim C3, as stated: a seconds value of \<open>2^63\<close> or more makes every decoder return the
  parse error.  The label \<open>2^63\<close> itself passes the guard \<open>sec > 1<<63\<close>: \<open>ParseTai64\<close>
  and \<open>DecodeTai64\<close> return a \<open>nil\<close> error and a timestamp that is not the zero value.
\<close>

theorem label_two_to_63_accepted:
  "spec_hex_value ''8000000000000000'' = Some (2 ^ 63)
   \<and> ParseTai64 ''@8000000000000000'' = Some (EpochTime (2 ^ 62) 0, None)
   \<and> spec_be_value [0x80, 0, 0, 0, 0, 0, 0, 0] = 2 ^ 63
   \<and> DecodeTai64 [0x80, 0, 0, 0, 0, 0, 0, 0] = Some (EpochTime (2 ^ 62) 0, None)
   \<and> \<not> IsZero (EpochTime (2 ^ 62) 0)"
proof -
  have h: "spec_hex_value ''8000000000000000'' = Some (2 ^ 63)"
    by (simp add: spec_hex_value_def spec_hex_digit_def)
  have b: "spec_be_value [0x80, 0, 0, 0, 0, 0, 0, 0] = 2 ^ 63"
    by (simp add: spec_be_value_def)
  have p: "ParseTai64 ''@8000000000000000'' = Some (EpochTime (2 ^ 62) 0, None)"
    using h by (simp add: ParseTai64_eq)
  have d: "DecodeTai64 [0x80, 0, 0, 0, 0, 0, 0, 0] = Some (EpochTime (2 ^ 62) 0, None)"
    using b by (simp add: DecodeTai64_eq)
  have "tsec (EpochTime (2 ^ 62) 0) = 4611686080562984669"
    by (simp add: EpochTime_def EpochTime_offset_def leapSeconds_def Unix_fields
        unixToInternal_def secondsPerDay_def)
  then have z: "\<not> IsZero (EpochTime (2 ^ 62) 0)"
    by (simp add: IsZero_def)
  from h p b d z show ?thesis by simp
qed

text \<open>
  Claim C3, amended.  Every input that misses the marker, has the wrong length, holds a
  character that is no hexadecimal digit, or denotes a seconds value above \<open>2^63\<close> makes
  its decoder return the zero timestamp with the parse error; and whatever the input,
  a decoder returns either that pair or a timestamp with a \<open>nil\<close> error, never anything
  in between and never a panic.  (Nothing is said here about the label \<open>2^63\<close> itself.)
\<close>

theorem decoders_reject:
  "(length s \<noteq> 17 \<or> take 1 s \<noteq> ''@'' \<or> (\<exists>c \<in> set (drop 1 s). spec_hex_digit c = None)
      \<or> (\<exists>v. spec_hex_value (drop 1 s) = Some v \<and> 2 ^ 63 < v)
    \<longrightarrow> ParseTai64 s = Some (Time_zero, Some parseError))
   \<and> (length sn \<noteq> 25 \<or> take 1 sn \<noteq> ''@'' \<or> (\<exists>c \<in> set (drop 1 sn). spec_hex_digit c = None)
      \<or> (\<exists>v. spec_hex_value (take 16 (drop 1 sn)) = Some v \<and> 2 ^ 63 < v)
    \<longrightarrow> ParseTai64n sn = Some (Time_zero, Some parseError))
   \<and> (length b \<noteq> 8 \<or> 2 ^ 63 < spec_be_value b
    \<longrightarrow> DecodeTai64 b = Some (Time_zero, Some parseError))
   \<and> (length bn \<noteq> 12 \<or> 2 ^ 63 < spec_be_value (take 8 bn)
    \<longrightarrow> DecodeTai64n bn = Some (Time_zero, Some parseError))
   \<and> (ParseTai64 s = Some (Time_zero, Some parseError) \<or> (\<exists>t. ParseTai64 s = Some (t, None)))
   \<and> (ParseTai64n sn = Some (Time_zero, Some parseError) \<or> (\<exists>t. ParseTai64n sn = Some (t, None)))
   \<and> (DecodeTai64 b = Some (Time_zero, Some parseError) \<or> (\<exists>t. DecodeTai64 b = Some (t, None)))
   \<and> (DecodeTai64n bn = Some (Time_zero, Some parseError) \<or> (\<exists>t. DecodeTai64n bn = Some (t, None)))
   \<and> IsZero Time_zero"
proof -
  have n: "(\<exists>c \<in> set (drop 1 sn). spec_hex_digit c = None) =
      (spec_hex_value (take 16 (drop 1 sn)) = None \<or> spec_hex_value (drop 17 sn) = None)"
  proof -
    have "drop 1 sn = take 16 (drop 1 sn) @ drop 17 sn"
      using append_take_drop_id [of 16 "drop 1 sn"] by simp
    then have "set (drop 1 sn) = set (take 16 (drop 1 sn)) \<union> set (drop 17 sn)"
      by (metis set_append)
    then show ?thesis
      by (auto simp add: spec_hex_value_None)
  qed
  have 1: "length s \<noteq> 17 \<or> take 1 s \<noteq> ''@'' \<or> (\<exists>c \<in> set (drop 1 s). spec_hex_digit c = None)
      \<or> (\<exists>v. spec_hex_value (drop 1 s) = Some v \<and> 2 ^ 63 < v)
    \<longrightarrow> ParseTai64 s = Some (Time_zero, Some parseError)"
    by (auto simp add: ParseTai64_eq simp flip: spec_hex_value_None)
  have 2: "length sn \<noteq> 25 \<or> take 1 sn \<noteq> ''@'' \<or> (\<exists>c \<in> set (drop 1 sn). spec_hex_digit c = None)
      \<or> (\<exists>v. spec_hex_value (take 16 (drop 1 sn)) = Some v \<and> 2 ^ 63 < v)
    \<longrightarrow> ParseTai64n sn = Some (Time_zero, Some parseError)"
    unfolding n by (auto simp add: ParseTai64n_eq split: option.splits)
  have 3: "length b \<noteq> 8 \<or> 2 ^ 63 < spec_be_value b
    \<longrightarrow> DecodeTai64 b = Some (Time_zero, Some parseError)"
    by (auto simp add: DecodeTai64_eq)
  have 4: "length bn \<noteq> 12 \<or> 2 ^ 63 < spec_be_value (take 8 bn)
    \<longrightarrow> DecodeTai64n bn = Some (Time_zero, Some parseError)"
    by (auto simp add: DecodeTai64n_eq)
  have 5: "ParseTai64 s = Some (Time_zero, Some parseError) \<or> (\<exists>t. ParseTai64 s = Some (t, None))"
    by (simp add: ParseTai64_eq split: option.splits)
  have 6: "ParseTai64n sn = Some (Time_zero, Some parseError) \<or> (\<exists>t. ParseTai64n sn = Some (t, None))"
    by (simp add: ParseTai64n_eq split: option.splits)
  have 7: "DecodeTai64 b = Some (Time_zero, Some parseError) \<or> (\<exists>t. DecodeTai64 b = Some (t, None))"
    by (simp add: DecodeTai64_eq)
  have 8: "DecodeTai64n bn = Some (Time_zero, Some parseError) \<or> (\<exists>t. DecodeTai64n bn = Some (t, None))"
    by (simp add: DecodeTai64n_eq)
  have 9: "IsZero Time_zero"
    by (simp add: IsZero_def Time_zero_def)
  from 1 2 3 4 5 6 7 8 9 show ?thesis by blast
qed

text \<open>
  The rejected inputs of the package's tests: a label that is too big, a character that
  is no hexadecimal digit, a byte too many, and a label that is too big in binary.
\<close>

theorem decoders_reject_witness:
  "ParseTai64 ''@f000000037c219bf'' = Some (Time_zero, Some parseError)
   \<and> ParseTai64n ''@G00000000000000000000000'' = Some (Time_zero, Some parseError)
   \<and> DecodeTai64 [0x40, 0, 0, 0, 0, 0, 0, 0, 0] = Some (Time_zero, Some parseError)
   \<and> DecodeTai64n [0xF0, 0, 0, 0, 0, 0, 0, 0, 0, 0, 0, 0] = Some (Time_zero, Some parseError)"
proof -
  have 1: "\<exists>v. spec_hex_value (drop 1 ''@f000000037c219bf'') = Some v \<and> 2 ^ 63 < v"
    by (simp add: spec_hex_value_def spec_hex_digit_def)
  have 2: "\<exists>c \<in> set (drop 1 ''@G00000000000000000000000''). spec_hex_digit c = None"
    by (simp add: spec_hex_digit_def)
  have 3: "length [0x40, 0, 0, 0, 0, 0, 0, 0, 0 :: byte] \<noteq> 8"
    by simp
  have 4: "2 ^ 63 < spec_be_value (take 8 [0xF0, 0, 0, 0, 0, 0, 0, 0, 0, 0, 0, 0])"
    by (simp add: spec_be_value_def)
  from 1 2 3 4
    decoders_reject [of "''@f000000037c219bf''" "''@G00000000000000000000000''"
      "[0x40, 0, 0, 0, 0, 0, 0, 0, 0]" "[0xF0, 0, 0, 0, 0, 0, 0, 0, 0, 0, 0, 0]"]
  show ?thesis by blast
qed

text \<open>
  Claim C2.  Take a string of 25 characters, the marker \<open>@\<close> and 24 hexadecimal digits,
  whose first 16 digits denote the seconds \<open>v\<close> and whose last 8 denote the nanoseconds
  \<open>ns\<close>, and 12 bytes whose first 8 denote \<open>v\<close> and whose last 4 denote \<open>ns\<close>, big-endian.
  Then \<open>ParseTai64n\<close> on the string and \<open>DecodeTai64n\<close> on the bytes return the same
  pair; when the seconds are in range, \<open>v \<le> 2^63\<close>, it is the timestamp
  \<open>EpochTime(v - 2^62, ns)\<close> with a \<open>nil\<close> error.
\<close>

theorem ParseTai64n_DecodeTai64n_agree:
  assumes "length s = 25" "take 1 s = ''@''"
    and "spec_hex_value (take 16 (drop 1 s)) = Some v"
    and "spec_hex_value (drop 17 s) = Some ns"
    and "length b = 12"
    and "spec_be_value (take 8 b) = v"
    and "spec_be_value (drop 8 b) = ns"
  shows "ParseTai64n s = DecodeTai64n b
    \<and> (v \<le> 2 ^ 63 \<longrightarrow>
         ParseTai64n s = Some (EpochTime (word_of_int (int v - 2 ^ 62)) (word_of_nat ns), None))"
  using assms by (simp add: ParseTai64n_eq DecodeTai64n_eq)

text \<open>The first vector of the package's tests, 1999-08-24T04:03:43.7874925Z.\<close>

theorem ParseTai64n_DecodeTai64n_agree_witness:
  "ParseTai64n ''@4000000037c219bf2ef02e94'' =
     DecodeTai64n [0x40, 0x00, 0x00, 0x00, 0x37, 0xc2, 0x19, 0xbf, 0x2e, 0xf0, 0x2e, 0x94]
   \<and> ParseTai64n ''@4000000037c219bf2ef02e94'' = Some (EpochTime 935467455 787492500, None)
   \<and> Time_Unix (EpochTime 935467455 787492500) = 935467423
   \<and> Nanosecond (EpochTime 935467455 787492500) = 787492500"
proof -
  have 1: "length ''@4000000037c219bf2ef02e94'' = 25" "take 1 ''@4000000037c219bf2ef02e94'' = ''@''"
    by simp_all
  have 2: "spec_hex_value (take 16 (drop 1 ''@4000000037c219bf2ef02e94'')) = Some 4611686019362855359"
    by (simp add: spec_hex_value_def spec_hex_digit_def)
  have 3: "spec_hex_value (drop 17 ''@4000000037c219bf2ef02e94'') = Some 787492500"
    by (simp add: spec_hex_value_def spec_hex_digit_def)
  have 4: "length [0x40, 0x00, 0x00, 0x00, 0x37, 0xc2, 0x19, 0xbf, 0x2e, 0xf0, 0x2e, 0x94 :: byte] = 12"
    by simp
  have 5: "spec_be_value (take 8 [0x40, 0x00, 0x00, 0x00, 0x37, 0xc2, 0x19, 0xbf, 0x2e, 0xf0, 0x2e, 0x94])
      = 4611686019362855359"
    by (simp add: spec_be_value_def)
  have 6: "spec_be_value (drop 8 [0x40, 0x00, 0x00, 0x00, 0x37, 0xc2, 0x19, 0xbf, 0x2e, 0xf0, 0x2e, 0x94])
      = 787492500"
    by (simp add: spec_be_value_def)
  have 7: "Time_Unix (EpochTime 935467455 787492500) = 935467423
     \<and> Nanosecond (EpochTime 935467455 787492500) = 787492500"
    by (simp add: EpochTime_def EpochTime_offset_def leapSeconds_def Time_Unix_Unix Nanosecond_Unix)
  note r = ParseTai64n_DecodeTai64n_agree [OF 1 2 3 4 5 6]
  have a: "ParseTai64n ''@4000000037c219bf2ef02e94'' =
     DecodeTai64n [0x40, 0x00, 0x00, 0x00, 0x37, 0xc2, 0x19, 0xbf, 0x2e, 0xf0, 0x2e, 0x94]"
    using r by (rule conjunct1)
  have "(4611686019362855359 :: nat) \<le> 2 ^ 63"
    by simp
  with r have "ParseTai64n ''@4000000037c219bf2ef02e94'' =
      Some (EpochTime (word_of_int (int 4611686019362855359 - 2 ^ 62)) (word_of_nat 787492500), None)"
    by blast
  then have c: "ParseTai64n ''@4000000037c219bf2ef02e94'' = Some (EpochTime 935467455 787492500, None)"
    by simp
  from a c 7 show ?thesis
    by (intro conjI) (elim conjE, assumption)+
qed

text \<open>
  Claim C10.  For every \<open>uint64\<close> \<open>sec\<close> that passes the range guard, \<open>sec \<le> 2^63\<close>, the
  wrapping subtraction \<open>sec - (1<<62)\<close> read as an \<open>int64\<close> is the exact difference
  \<open>sec - 2^62\<close>, which lies in \<open>[-2^62, 2^62]\<close>; and each of the four decoders, once its
  input has yielded \<open>sec\<close>, returns \<open>EpochTime\<close> of that \<open>int64\<close>.
\<close>

theorem bias_exact:
  fixes sec nsec :: uint64 and nsec32 :: uint32
  assumes "sec \<le> 2 ^ 63"
  shows "sint (sec - 2 ^ 62) = uint sec - 2 ^ 62
    \<and> - (2 ^ 62) \<le> sint (sec - 2 ^ 62) \<and> sint (sec - 2 ^ 62) \<le> 2 ^ 62
    \<and> (length s = 17 \<and> take 1 s = ''@'' \<and> ParseUint16 (drop 1 s) 64 = Inr sec
        \<longrightarrow> ParseTai64 s = Some (EpochTime (sec - 2 ^ 62) 0, None))
    \<and> (length sn = 25 \<and> take 1 sn = ''@'' \<and> ParseUint16 (take 16 (drop 1 sn)) 64 = Inr sec
          \<and> ParseUint16 (drop 17 sn) 32 = Inr nsec
        \<longrightarrow> ParseTai64n sn = Some (EpochTime (sec - 2 ^ 62) nsec, None))
    \<and> (length b = 8 \<and> BigEndian_Uint64 b = Some sec
        \<longrightarrow> DecodeTai64 b = Some (EpochTime (sec - 2 ^ 62) 0, None))
    \<and> (length bn = 12 \<and> BigEndian_Uint64 (take 8 bn) = Some sec
          \<and> BigEndian_Uint32 (drop 8 bn) = Some nsec32
        \<longrightarrow> DecodeTai64n bn = Some (EpochTime (sec - 2 ^ 62) (ucast nsec32), None))"
proof -
  note b = bias_sint [OF assms]
  have g: "\<not> 2 ^ 63 < sec" using assms by simp
  have 1: "ParseTai64 s = Some (EpochTime (sec - 2 ^ 62) 0, None)"
    if "length s = 17" "take 1 s = ''@''" "ParseUint16 (drop 1 s) 64 = Inr sec"
  proof -
    have "s ! 0 = CHR ''@''"
      using marker_iff [of s 16 "CHR ''@''"] that(1,2) by simp
    then show ?thesis
      using that(1,3) g by (simp add: ParseTai64_def go_index_def go_slice_def)
  qed
  have 2: "ParseTai64n sn = Some (EpochTime (sec - 2 ^ 62) nsec, None)"
    if "length sn = 25" "take 1 sn = ''@''" "ParseUint16 (take 16 (drop 1 sn)) 64 = Inr sec"
      "ParseUint16 (drop 17 sn) 32 = Inr nsec"
  proof -
    have "sn ! 0 = CHR ''@''"
      using marker_iff [of sn 24 "CHR ''@''"] that(1,2) by simp
    then show ?thesis
      using that(1,3,4) g by (simp add: ParseTai64n_def go_index_def go_slice_def)
  qed
  have 3: "DecodeTai64 b = Some (EpochTime (sec - 2 ^ 62) 0, None)"
    if "length b = 8" "BigEndian_Uint64 b = Some sec"
    using that g by (simp add: DecodeTai64_def)
  have 4: "DecodeTai64n bn = Some (EpochTime (sec - 2 ^ 62) (ucast nsec32), None)"
    if "length bn = 12" "BigEndian_Uint64 (take 8 bn) = Some sec"
      "BigEndian_Uint32 (drop 8 bn) = Some nsec32"
    using that g by (simp add: DecodeTai64n_def go_slice_def)
  from b 1 2 3 4 show ?thesis by simp
qed

text \<open>The date of the package's tests, 2006-01-02T15:04:05Z, through each decoder.\<close>

theorem bias_exact_witness:
  "sint (4611686019563602182 - 2 ^ 62 :: int64) = 1136214278
   \<and> ParseTai64 ''@4000000043b94106'' = Some (EpochTime 1136214278 0, None)
   \<and> ParseTai64n ''@4000000043b9410600000000'' = Some (EpochTime 1136214278 0, None)
   \<and> DecodeTai64 [0x40, 0x00, 0x00, 0x00, 0x43, 0xb9, 0x41, 0x06]
       = Some (EpochTime 1136214278 0, None)
   \<and> DecodeTai64n [0x40, 0x00, 0x00, 0x00, 0x43, 0xb9, 0x41, 0x06, 0x00, 0x00, 0x00, 0x00]
       = Some (EpochTime 1136214278 0, None)"
proof -
  have g: "(4611686019563602182 :: uint64) \<le> 2 ^ 63"
    by simp
  have h: "spec_hex_value ''4000000043b94106'' = Some 4611686019563602182"
    "spec_hex_value ''00000000'' = Some 0"
    by (simp_all add: spec_hex_value_def spec_hex_digit_def)
  have p: "ParseUint16 (drop 1 ''@4000000043b94106'') 64 = Inr 4611686019563602182"
    "ParseUint16 (take 16 (drop 1 ''@4000000043b9410600000000'')) 64 = Inr 4611686019563602182"
    "ParseUint16 (drop 17 ''@4000000043b9410600000000'') 32 = Inr 0"
    using h by (simp_all add: ParseUint16_64 ParseUint16_32)
  have v: "spec_be_value [0x40, 0x00, 0x00, 0x00, 0x43, 0xb9, 0x41, 0x06] = 4611686019563602182"
    "spec_be_value [0x00, 0x00, 0x00, 0x00] = 0"
    by (simp_all add: spec_be_value_def)
  have d: "BigEndian_Uint64 [0x40, 0x00, 0x00, 0x00, 0x43, 0xb9, 0x41, 0x06] = Some 4611686019563602182"
    "BigEndian_Uint64 (take 8 [0x40, 0x00, 0x00, 0x00, 0x43, 0xb9, 0x41, 0x06, 0x00, 0x00, 0x00, 0x00])
       = Some 4611686019563602182"
    "BigEndian_Uint32 (drop 8 [0x40, 0x00, 0x00, 0x00, 0x43, 0xb9, 0x41, 0x06, 0x00, 0x00, 0x00, 0x00])
       = Some 0"
    using v by (simp_all add: BigEndian_Uint64_value BigEndian_Uint32_value)
  have e: "(4611686019563602182 - 2 ^ 62 :: int64) = 1136214278" "ucast (0 :: uint32) = (0 :: int64)"
    by simp_all
  note r = bias_exact [OF g, of "''@4000000043b94106''" "''@4000000043b9410600000000''" 0
      "[0x40, 0x00, 0x00, 0x00, 0x43, 0xb9, 0x41, 0x06]"
      "[0x40, 0x00, 0x00, 0x00, 0x43, 0xb9, 0x41, 0x06, 0x00, 0x00, 0x00, 0x00]" 0,
      unfolded e]
  have l: "length ''@4000000043b94106'' = 17 \<and> take 1 ''@4000000043b94106'' = ''@''"
    "length ''@4000000043b9410600000000'' = 25 \<and> take 1 ''@4000000043b9410600000000'' = ''@''"
    "length [0x40, 0x00, 0x00, 0x00, 0x43, 0xb9, 0x41, 0x06 :: byte] = 8"
    "length [0x40, 0x00, 0x00, 0x00, 0x43, 0xb9, 0x41, 0x06, 0x00, 0x00, 0x00, 0x00 :: byte] = 12"
    by simp_all
  have s: "sint (1136214278 :: int64) = 1136214278"
    by simp
  from r l p d s show ?thesis
    unfolding e by blast
qed

section \<open>Order and gaps of \<open>EpochTime\<close>\<close>

lemma filter_between:
  assumes "a \<le>s b"
  shows "length (filter (\<lambda>l. l <s b) xs) =
     length (filter (\<lambda>l. l <s a) xs) + length (filter (\<lambda>l. a \<le>s l \<and> l <s b) xs)"
  using assms by (induction xs) (auto simp add: word_sless_alt word_sle_eq)

lemma between_le:
  assumes "distinct xs" "a \<le>s b"
  shows "int (length (filter (\<lambda>l. a \<le>s l \<and> l <s b) xs)) \<le> sint b - sint a"
proof -
  let ?F = "filter (\<lambda>l. a \<le>s l \<and> l <s b) xs"
  have "distinct ?F" using assms(1) by simp
  then have "length ?F = card (set ?F)"
    by (rule distinct_card [symmetric])
  also have "\<dots> = card (sint ` set ?F)"
    by (rule card_image [symmetric]) (auto simp add: inj_on_def intro: signed_word_eqI)
  also have "\<dots> \<le> card {sint a ..< sint b}"
    by (rule card_mono) (auto simp add: word_sless_alt word_sle_eq)
  finally have "length ?F \<le> nat (sint b - sint a)"
    by simp
  moreover have "sint a \<le> sint b"
    using assms(2) by (simp add: word_sle_eq)
  ultimately show ?thesis by simp
qed

lemma leapSeconds_butlast_distinct: "distinct (butlast leapSeconds)"
  by (simp add: leapSeconds_def)

lemma EpochTime_offset_low: "sint a \<le> 78796810 \<Longrightarrow> EpochTime_offset a = 10"
  by (simp add: EpochTime_offset_def leapSeconds_def word_sless_alt)

lemma EpochTime_offset_high: "1341100834 < sint b \<Longrightarrow> EpochTime_offset b = 35"
  by (simp add: EpochTime_offset_def leapSeconds_def word_sless_alt)

lemma carry_bounds:
  "- 9223372037 \<le> sint (n :: int64) div 1000000000" "sint (n :: int64) div 1000000000 \<le> 9223372036"
  using sint64_bounds [of n] by simp_all

text \<open>
  The Unix seconds of the result as a mathematical integer, when neither the subtraction
  of the offset nor the carry of the nanoseconds leaves \<open>int64\<close>.
\<close>

lemma sint_Time_Unix_EpochTime:
  assumes "- (2 ^ 63) + 10 \<le> sint x + sint n div 1000000000"
    and "sint x + sint n div 1000000000 \<le> 2 ^ 63 + 34"
  shows "sint (Time_Unix (EpochTime x n)) = sint x - EpochTime_offset x + sint n div 1000000000"
proof -
  let ?c = "sint n div 1000000000"
  let ?r = "sint x - EpochTime_offset x + ?c"
  have lo: "- 9223372036854775808 \<le> ?r"
  proof (cases "sint x \<le> 78796810")
    case True
    then show ?thesis using assms(1) by (simp add: EpochTime_offset_low)
  next
    case False
    then show ?thesis using EpochTime_offset_bounds [of x] carry_bounds [of n] by simp
  qed
  have hi: "?r < 9223372036854775808"
  proof (cases "1341100834 < sint x")
    case True
    then show ?thesis using assms(2) by (simp add: EpochTime_offset_high)
  next
    case False
    then show ?thesis using EpochTime_offset_bounds [of x] carry_bounds [of n] by simp
  qed
  have "Time_Unix (EpochTime x n) = word_of_int ?r"
    by (simp add: EpochTime_def Time_Unix_Unix)
  then show ?thesis
    using sint_small64 [OF lo hi] by simp
qed

lemma EpochTime_offset_between:
  assumes "a \<le>s b"
  shows "EpochTime_offset b =
     EpochTime_offset a + int (length (filter (\<lambda>l. a \<le>s l \<and> l <s b) (butlast leapSeconds)))"
  using filter_between [OF assms, of "butlast leapSeconds"]
  by (simp add: EpochTime_offset_count)

text \<open>
  Claim C4, as stated: crossing a leap second makes the gap between the results one
  larger than the gap between the arguments.  The gap becomes smaller: 78796810 is an
  entry of the table, and the second it names and the next second get the same result.
\<close>

theorem EpochTime_gap_shrinks_at_leap:
  "filter (\<lambda>l. 78796810 \<le>s l \<and> l <s 78796811) leapSeconds = [78796810]
   \<and> sint (Time_Unix (EpochTime 78796811 0)) - sint (Time_Unix (EpochTime 78796810 0)) = 0
   \<and> sint (Time_Unix (EpochTime 78796811 0)) - sint (Time_Unix (EpochTime 78796810 0))
       \<noteq> (78796811 - 78796810) + 1"
  by (simp add: EpochTime_def EpochTime_offset_def leapSeconds_def Time_Unix_Unix)

text \<open>
  Claim C4, amended.  Take \<open>a < b\<close> such that neither result leaves \<open>int64\<close>: with \<open>c\<close>
  the whole seconds in \<open>n\<close>, \<open>-2^63 + 10 \<le> a + c\<close> and \<open>b + c \<le> 2^63 + 34\<close>.  The leap
  seconds crossed are the table entries \<open>l\<close> with \<open>a \<le> l < b\<close>, the oldest entry apart
  (the offset is 10 on both sides of it).  Then the Unix seconds of \<open>EpochTime(b, n)\<close> exceed
  those of \<open>EpochTime(a, n)\<close> by \<open>b - a\<close> minus the number of leap seconds crossed, and the
  nanoseconds agree: with none crossed the gap \<open>b - a\<close> is kept and the first instant
  precedes the second, and each one crossed makes the gap smaller by exactly 1.
\<close>

theorem EpochTime_gap:
  assumes "a <s b"
    and "- (2 ^ 63) + 10 \<le> sint a + sint n div 1000000000"
    and "sint b + sint n div 1000000000 \<le> 2 ^ 63 + 34"
  shows "sint (Time_Unix (EpochTime b n)) - sint (Time_Unix (EpochTime a n)) =
      (sint b - sint a)
        - int (length (filter (\<lambda>l. a \<le>s l \<and> l <s b) (butlast leapSeconds)))
    \<and> Nanosecond (EpochTime a n) = Nanosecond (EpochTime b n)
    \<and> (filter (\<lambda>l. a \<le>s l \<and> l <s b) (butlast leapSeconds) = []
        \<longrightarrow> Time_Unix (EpochTime a n) <s Time_Unix (EpochTime b n))"
proof -
  have ab: "sint a < sint b" "a \<le>s b"
    using assms(1) by (simp_all add: word_sless_alt word_sle_eq)
  have ra: "sint (Time_Unix (EpochTime a n)) = sint a - EpochTime_offset a + sint n div 1000000000"
    using assms(2,3) ab(1) by (intro sint_Time_Unix_EpochTime) simp_all
  have rb: "sint (Time_Unix (EpochTime b n)) = sint b - EpochTime_offset b + sint n div 1000000000"
    using assms(2,3) ab(1) by (intro sint_Time_Unix_EpochTime) simp_all
  have gap: "sint (Time_Unix (EpochTime b n)) - sint (Time_Unix (EpochTime a n)) =
      (sint b - sint a)
        - int (length (filter (\<lambda>l. a \<le>s l \<and> l <s b) (butlast leapSeconds)))"
    by (simp add: ra rb EpochTime_offset_between [OF ab(2)])
  have ns: "Nanosecond (EpochTime a n) = Nanosecond (EpochTime b n)"
    by (simp add: EpochTime_def Nanosecond_Unix)
  have "Time_Unix (EpochTime a n) <s Time_Unix (EpochTime b n)"
    if "filter (\<lambda>l. a \<le>s l \<and> l <s b) (butlast leapSeconds) = []"
    using gap ab(1) unfolding that by (simp add: word_sless_alt)
  with gap ns show ?thesis by blast
qed

text \<open>Across the leap second of 2012 and two seconds apart: the results are one apart.\<close>

theorem EpochTime_gap_witness:
  "sint (Time_Unix (EpochTime 1341100836 5)) - sint (Time_Unix (EpochTime 1341100834 5)) = 1
   \<and> Nanosecond (EpochTime 1341100834 5) = Nanosecond (EpochTime 1341100836 5)
   \<and> Time_Unix (EpochTime 1341100836 5) <s Time_Unix (EpochTime 1341100838 5)"
proof -
  have 1: "(1341100834 :: int64) <s 1341100836" "(1341100836 :: int64) <s 1341100838"
    by simp_all
  have 2: "- (2 ^ 63) + 10 \<le> sint (1341100834 :: int64) + sint (5 :: int64) div 1000000000"
    "- (2 ^ 63) + 10 \<le> sint (1341100836 :: int64) + sint (5 :: int64) div 1000000000"
    by simp_all
  have 3: "sint (1341100836 :: int64) + sint (5 :: int64) div 1000000000 \<le> 2 ^ 63 + 34"
    "sint (1341100838 :: int64) + sint (5 :: int64) div 1000000000 \<le> 2 ^ 63 + 34"
    by simp_all
  have 4: "filter (\<lambda>l. 1341100834 \<le>s l \<and> l <s 1341100836) (butlast leapSeconds) = [1341100834]"
    "filter (\<lambda>l. 1341100836 \<le>s l \<and> l <s 1341100838) (butlast leapSeconds) = []"
    by (simp_all add: leapSeconds_def)
  from EpochTime_gap [OF 1(1) 2(1) 3(1)] EpochTime_gap [OF 1(2) 2(2) 3(2)] show ?thesis
    unfolding 4 by simp
qed

text \<open>
  Claim C9, as stated: the Unix seconds of the result never decrease as \<open>secs\<close> grows, over
  all of \<open>int64\<close>.  At the least \<open>int64\<close> the subtraction of the offset wraps around, and
  the result lies after the result for 0.
\<close>

theorem EpochTime_not_monotone_at_min:
  "(- (2 ^ 63) :: int64) \<le>s 0
   \<and> sint (Time_Unix (EpochTime (- (2 ^ 63)) 0)) = 2 ^ 63 - 10
   \<and> sint (Time_Unix (EpochTime 0 0)) = - 10
   \<and> \<not> Time_Unix (EpochTime (- (2 ^ 63)) 0) \<le>s Time_Unix (EpochTime 0 0)"
  by (simp add: EpochTime_def EpochTime_offset_def leapSeconds_def Time_Unix_Unix word_sle_eq
      word_sless_alt)

text \<open>
  Claim C9, amended.  For \<open>a \<le> b\<close> such that neither result leaves \<open>int64\<close> (with \<open>c\<close> the
  whole seconds in \<open>nsecs\<close>, \<open>-2^63 + 10 \<le> a + c\<close> and \<open>b + c \<le> 2^63 + 34\<close>; for
  \<open>0 \<le> nsecs < 1e9\<close> this is \<open>-2^63 + 10 \<le> a\<close>), the Unix seconds of \<open>EpochTime(a, nsecs)\<close>
  are at most those of \<open>EpochTime(b, nsecs)\<close>: the entries of the table are distinct, so
  at most \<open>b - a\<close> of them lie between \<open>a\<close> and \<open>b\<close>.
\<close>

theorem EpochTime_monotone:
  assumes "a \<le>s b"
    and "- (2 ^ 63) + 10 \<le> sint a + sint n div 1000000000"
    and "sint b + sint n div 1000000000 \<le> 2 ^ 63 + 34"
  shows "Time_Unix (EpochTime a n) \<le>s Time_Unix (EpochTime b n)"
proof -
  have ab: "sint a \<le> sint b"
    using assms(1) by (simp add: word_sle_eq)
  have ra: "sint (Time_Unix (EpochTime a n)) = sint a - EpochTime_offset a + sint n div 1000000000"
    using assms(2,3) ab by (intro sint_Time_Unix_EpochTime) simp_all
  have rb: "sint (Time_Unix (EpochTime b n)) = sint b - EpochTime_offset b + sint n div 1000000000"
    using assms(2,3) ab by (intro sint_Time_Unix_EpochTime) simp_all
  have "EpochTime_offset b - EpochTime_offset a \<le> sint b - sint a"
    using between_le [OF leapSeconds_butlast_distinct assms(1)]
    by (simp add: EpochTime_offset_between [OF assms(1)])
  then show ?thesis
    by (simp add: word_sle_eq ra rb)
qed

text \<open>The leap second of 1972 and the second after it share their Unix second.\<close>

theorem EpochTime_monotone_witness:
  "Time_Unix (EpochTime 78796810 0) \<le>s Time_Unix (EpochTime 78796811 0)
   \<and> Time_Unix (EpochTime 78796810 0) = Time_Unix (EpochTime 78796811 0)"
proof -
  have 1: "(78796810 :: int64) \<le>s 78796811"
    by simp
  have 2: "- (2 ^ 63) + 10 \<le> sint (78796810 :: int64) + sint (0 :: int64) div 1000000000"
    by simp
  have 3: "sint (78796811 :: int64) + sint (0 :: int64) div 1000000000 \<le> 2 ^ 63 + 34"
    by simp
  have 4: "Time_Unix (EpochTime 78796810 0) = Time_Unix (EpochTime 78796811 0)"
    by (simp add: EpochTime_def EpochTime_offset_def leapSeconds_def Time_Unix_Unix)
  from EpochTime_monotone [OF 1 2 3] 4 show ?thesis
    by (rule conjI)
qed

end
